theory Spec2Isabelle
  imports Complex_Main
begin

section \<open>Python values used by the risk engine\<close>

text \<open>
  The program is \<^verbatim>\<open>src/app.py\<close>: the function \<^verbatim>\<open>ascvd_10y_risk_pce\<close>
  (lines 15 to 142) and the form handler that calls it (lines 209 to 270).

  Python floats are modelled as real numbers: rounding is not modelled, and the
  inputs are finite numbers (no NaN, no infinity). The two places where the
  \<^verbatim>\<open>math\<close> module raises are part of the model: \<^verbatim>\<open>math.log\<close> raises
  \<^verbatim>\<open>ValueError\<close> on an argument that is not positive, and \<^verbatim>\<open>math.exp\<close> raises
  \<^verbatim>\<open>OverflowError\<close> when its result is larger than the largest double.

  Python strings are modelled as lists of code points below 256, one \<^typ>\<open>char\<close>
  each; \<^verbatim>\<open>str.lower\<close> and \<^verbatim>\<open>str.strip\<close> are written out for that range.
\<close>

datatype error = ValueError string | OverflowError string

definition is_upper :: "char \<Rightarrow> bool" where
  "is_upper c =
     (let n = (of_char c :: nat)
      in (65 \<le> n \<and> n \<le> 90) \<or> (192 \<le> n \<and> n \<le> 214) \<or> (216 \<le> n \<and> n \<le> 222))"

definition lower_char :: "char \<Rightarrow> char" where
  "lower_char c = (if is_upper c then char_of ((of_char c :: nat) + 32) else c)"

definition py_lower :: "string \<Rightarrow> string" where
  "py_lower s = map lower_char s"

definition is_space :: "char \<Rightarrow> bool" where
  "is_space c =
     (let n = (of_char c :: nat)
      in (9 \<le> n \<and> n \<le> 13) \<or> (28 \<le> n \<and> n \<le> 32) \<or> n = 133 \<or> n = 160)"

definition py_strip :: "string \<Rightarrow> string" where
  "py_strip s = rev (dropWhile is_space (rev (dropWhile is_space s)))"

definition startswith :: "string \<Rightarrow> string \<Rightarrow> bool" where
  "startswith s p = (take (length p) s = p)"

text \<open>
  \<^verbatim>\<open>math.log(x)\<close> raises \<^verbatim>\<open>ValueError\<close> (math domain error) when \<open>x\<close> is zero
  or negative. \<^verbatim>\<open>math.exp(x)\<close> raises \<^verbatim>\<open>OverflowError\<close> (math range error)
  when the result does not fit a double, that is when it is above \<open>DBL_MAX\<close>,
  the largest finite double \<open>(2 ^ 53 - 1) * 2 ^ 971\<close>. A result too small for a
  double raises nothing in Python, and the power \<^verbatim>\<open>S10 ** e\<close> of a base between
  0 and 1 with \<open>e\<close> positive cannot overflow, so these are the only two calls
  of the function that can raise.
\<close>

definition math_log :: "real \<Rightarrow> error + real" where
  "math_log x = (if x \<le> 0 then Inl (ValueError ''math domain error'') else Inr (ln x))"

definition DBL_MAX :: real where
  "DBL_MAX = (2 ^ 53 - 1) * 2 ^ 971"

definition math_exp :: "real \<Rightarrow> error + real" where
  "math_exp x =
     (if DBL_MAX < exp x then Inl (OverflowError ''math range error'') else Inr (exp x))"

section \<open>The coefficient sets\<close>

record coefficients =
  CAge :: real
  CSqAge :: real
  CTotalChol :: real
  CAgeTotalChol :: real
  CHDLChol :: real
  CAgeHDLChol :: real
  COnHypertensionMeds :: real
  CAgeOnHypertensionMeds :: real
  COffHypertensionMeds :: real
  CAgeOffHypertensionMeds :: real
  CSmoker :: real
  CAgeSmoker :: real
  CDiabetes :: real
  S10 :: real
  MeanTerms :: real

definition female_white :: coefficients where
  "female_white = \<lparr>
     CAge = -29.799, CSqAge = 4.884,
     CTotalChol = 13.54, CAgeTotalChol = -3.114,
     CHDLChol = -13.578, CAgeHDLChol = 3.149,
     COnHypertensionMeds = 2.019, CAgeOnHypertensionMeds = 0,
     COffHypertensionMeds = 1.957, CAgeOffHypertensionMeds = 0,
     CSmoker = 7.574, CAgeSmoker = -1.665,
     CDiabetes = 0.661,
     S10 = 0.9665, MeanTerms = -29.18 \<rparr>"

definition female_black :: coefficients where
  "female_black = \<lparr>
     CAge = 17.114, CSqAge = 0,
     CTotalChol = 0.94, CAgeTotalChol = 0,
     CHDLChol = -18.92, CAgeHDLChol = 4.475,
     COnHypertensionMeds = 29.291, CAgeOnHypertensionMeds = -6.432,
     COffHypertensionMeds = 27.82, CAgeOffHypertensionMeds = -6.087,
     CSmoker = 0.691, CAgeSmoker = 0,
     CDiabetes = 0.874,
     S10 = 0.9533, MeanTerms = 86.61 \<rparr>"

definition male_white :: coefficients where
  "male_white = \<lparr>
     CAge = 12.344, CSqAge = 0,
     CTotalChol = 11.853, CAgeTotalChol = -2.664,
     CHDLChol = -7.99, CAgeHDLChol = 1.769,
     COnHypertensionMeds = 1.797, CAgeOnHypertensionMeds = 0,
     COffHypertensionMeds = 1.764, CAgeOffHypertensionMeds = 0,
     CSmoker = 7.837, CAgeSmoker = -1.795,
     CDiabetes = 0.658,
     S10 = 0.9144, MeanTerms = 61.18 \<rparr>"

definition male_black :: coefficients where
  "male_black = \<lparr>
     CAge = 2.469, CSqAge = 0,
     CTotalChol = 0.302, CAgeTotalChol = 0,
     CHDLChol = -0.307, CAgeHDLChol = 0,
     COnHypertensionMeds = 1.916, CAgeOnHypertensionMeds = 0,
     COffHypertensionMeds = 1.809, CAgeOffHypertensionMeds = 0,
     CSmoker = 0.549, CAgeSmoker = 0,
     CDiabetes = 0.645,
     S10 = 0.8954, MeanTerms = 19.54 \<rparr>"

definition race_message :: string where
  "race_message = ''race must be 'white', 'black', or 'other'' @ [CHR 0x27]"

definition sex_message :: string where
  "sex_message = ''sex must be 'male' or 'female'' @ [CHR 0x27]"

text \<open>
  Lines 47 to 100 of \<^verbatim>\<open>ascvd_10y_risk_pce\<close>: both strings are lowercased and
  stripped, the race is checked first, \<^verbatim>\<open>other\<close> becomes \<^verbatim>\<open>white\<close>, and the
  chain of comparisons picks a dictionary or raises for the sex. The two messages
  are the source's; each ends in a quotation mark, written \<open>CHR 0x27\<close>.
\<close>

definition select_coefficients :: "string \<Rightarrow> string \<Rightarrow> error + coefficients" where
  "select_coefficients sex0 race0 =
     (let sex = py_strip (py_lower sex0);
          race = py_strip (py_lower race0)
      in if race \<notin> {''white'', ''black'', ''other''} then Inl (ValueError race_message)
         else
           let race = (if race = ''other'' then ''white'' else race)
           in if sex = ''female'' \<and> race = ''white'' then Inr female_white
              else if sex = ''female'' \<and> race = ''black'' then Inr female_black
              else if sex = ''male'' \<and> race = ''white'' then Inr male_white
              else if sex = ''male'' \<and> race = ''black'' then Inr male_black
              else Inl (ValueError sex_message))"

section \<open>The risk function\<close>

text \<open>Lines 109 to 136: the sum \<^verbatim>\<open>terms\<close>, from the four logarithms.\<close>

definition terms_of ::
  "coefficients \<Rightarrow> real \<Rightarrow> real \<Rightarrow> real \<Rightarrow> real \<Rightarrow> bool \<Rightarrow> bool \<Rightarrow> bool \<Rightarrow> real" where
  "terms_of c ln_age ln_tc ln_hdl ln_sbp on_treatment smoker diabetes =
     (let terms =
            CAge c * ln_age +
            CSqAge c * (ln_age ^ 2) +
            CTotalChol c * ln_tc +
            CAgeTotalChol c * ln_age * ln_tc +
            CHDLChol c * ln_hdl +
            CAgeHDLChol c * ln_age * ln_hdl;
          terms =
            (if on_treatment
             then terms + (COnHypertensionMeds c * ln_sbp +
                           CAgeOnHypertensionMeds c * ln_age * ln_sbp)
             else terms + (COffHypertensionMeds c * ln_sbp +
                           CAgeOffHypertensionMeds c * ln_age * ln_sbp));
          terms = (if smoker then terms + (CSmoker c + CAgeSmoker c * ln_age) else terms);
          terms = (if diabetes then terms + CDiabetes c else terms)
      in terms)"

text \<open>
  The whole function. Each \<^verbatim>\<open>raise\<close> of the source, and each call that can
  raise, is a branch that returns \<open>Inl\<close>, in the source's order. The numbers
  are real: the sum is exact here and rounded in the code, and \<open>S10 powr ex\<close>
  is never zero here, while the code's \<^verbatim>\<open>S10 ** math.exp(..)\<close> becomes 0.0 for
  a large exponent, so that the code returns exactly 100.0 there. A returned
  value of the code can so differ from the one here by rounding, and a statement
  that orders two returned values is made with an allowance for it.
\<close>

definition ascvd_10y_risk_pce ::
  "real \<Rightarrow> string \<Rightarrow> string \<Rightarrow> real \<Rightarrow> real \<Rightarrow> real \<Rightarrow> bool \<Rightarrow> bool \<Rightarrow> bool \<Rightarrow> error + real" where
  "ascvd_10y_risk_pce age sex race tc hdl sbp on_treatment smoker diabetes =
     (case select_coefficients sex race of
        Inl e \<Rightarrow> Inl e
      | Inr c \<Rightarrow>
     (case math_log age of
        Inl e \<Rightarrow> Inl e
      | Inr ln_age \<Rightarrow>
     (case math_log tc of
        Inl e \<Rightarrow> Inl e
      | Inr ln_tc \<Rightarrow>
     (case math_log hdl of
        Inl e \<Rightarrow> Inl e
      | Inr ln_hdl \<Rightarrow>
     (case math_log sbp of
        Inl e \<Rightarrow> Inl e
      | Inr ln_sbp \<Rightarrow>
     (let terms = terms_of c ln_age ln_tc ln_hdl ln_sbp on_treatment smoker diabetes
      in case math_exp (terms - MeanTerms c) of
           Inl e \<Rightarrow> Inl e
         | Inr ex \<Rightarrow>
             (let risk_fraction = 1 - (S10 c powr ex)
              in Inr (risk_fraction * 100))))))))"

section \<open>The form handler\<close>

text \<open>
  Lines 209 to 270, run when the form is submitted. The widgets hand over the
  numbers and the two labels; the handler maps the labels to the arguments of
  \<^verbatim>\<open>ascvd_10y_risk_pce\<close>, warns when the age is outside 40 to 79, calls the
  function, clips the result and picks the category. What the page then shows is
  the record \<open>page\<close>: whether \<^verbatim>\<open>st.warning\<close> was called, and either the
  exception caught by \<^verbatim>\<open>except Exception\<close> or the clipped risk with its
  category and colour. The four category labels of the source are the four
  constructors of \<open>category\<close>, in the source's order.
\<close>

datatype category = Low_risk | Borderline_risk | Intermediate_risk | High_risk

definition clip :: "real \<Rightarrow> real" where
  "clip risk = max 0 (min risk 100)"

definition categorise :: "real \<Rightarrow> category \<times> string" where
  "categorise risk =
     (if risk < 5 then (Low_risk, ''green'')
      else if risk < 7.5 then (Borderline_risk, ''orange'')
      else if risk < 20 then (Intermediate_risk, ''orange'')
      else (High_risk, ''red''))"

record page =
  age_warning :: bool
  shown :: "error + real \<times> category \<times> string"

definition on_submit ::
  "real \<Rightarrow> string \<Rightarrow> string \<Rightarrow> real \<Rightarrow> real \<Rightarrow> real \<Rightarrow> bool \<Rightarrow> bool \<Rightarrow> bool \<Rightarrow> page" where
  "on_submit age sex race tc hdl sbp on_treatment smoker diabetes =
     (let sex_arg = (if startswith (py_lower sex) ''m'' then ''male'' else ''female'');
          race_arg = (if startswith (py_lower race) ''black'' then ''black'' else ''white'')
      in \<lparr> age_warning = (age < 40 \<or> age > 79),
           shown =
             (case ascvd_10y_risk_pce age sex_arg race_arg tc hdl sbp
                     on_treatment smoker diabetes of
                Inl e \<Rightarrow> Inl e
              | Inr risk \<Rightarrow>
                  (let risk = clip risk
                   in Inr (risk, categorise risk))) \<rparr>)"

section \<open>The specification's reading of the formula\<close>

text \<open>
  These definitions follow the words of the specification, not the source, and
  are what the source is compared with. A sex or race is recognised when, after
  the lowercasing and stripping of lines 47 and 48, it is one of the listed
  values. The coefficient set is looked up by the pair of the sex and the race
  after \<^verbatim>\<open>other\<close> has become \<^verbatim>\<open>white\<close>. The linear predictor is the sum
  of section 4.1, step 2, and \<open>pce_risk\<close> is steps 3 and 4 without the clamp.
\<close>

definition recognised_sex :: "string \<Rightarrow> bool" where
  "recognised_sex sex = (py_strip (py_lower sex) \<in> {''male'', ''female''})"

definition recognised_race :: "string \<Rightarrow> bool" where
  "recognised_race race = (py_strip (py_lower race) \<in> {''white'', ''black'', ''other''})"

definition coefficient_set :: "string \<Rightarrow> string \<Rightarrow> coefficients" where
  "coefficient_set sex race =
     (let s = py_strip (py_lower sex);
          r = py_strip (py_lower race);
          r = (if r = ''other'' then ''white'' else r)
      in if s = ''female''
         then (if r = ''black'' then female_black else female_white)
         else (if r = ''black'' then male_black else male_white))"

definition linear_predictor ::
  "coefficients \<Rightarrow> real \<Rightarrow> real \<Rightarrow> real \<Rightarrow> real \<Rightarrow> bool \<Rightarrow> bool \<Rightarrow> bool \<Rightarrow> real" where
  "linear_predictor c ln_age ln_tc ln_hdl ln_sbp on_treatment smoker diabetes =
     CAge c * ln_age + CSqAge c * ln_age\<^sup>2 + CTotalChol c * ln_tc +
     CAgeTotalChol c * ln_age * ln_tc + CHDLChol c * ln_hdl +
     CAgeHDLChol c * ln_age * ln_hdl +
     (if on_treatment
      then COnHypertensionMeds c * ln_sbp + CAgeOnHypertensionMeds c * ln_age * ln_sbp
      else COffHypertensionMeds c * ln_sbp + CAgeOffHypertensionMeds c * ln_age * ln_sbp) +
     (if smoker then CSmoker c + CAgeSmoker c * ln_age else 0) +
     (if diabetes then CDiabetes c else 0)"

definition pce_exponent ::
  "coefficients \<Rightarrow> real \<Rightarrow> real \<Rightarrow> real \<Rightarrow> real \<Rightarrow> bool \<Rightarrow> bool \<Rightarrow> bool \<Rightarrow> real" where
  "pce_exponent c ln_age ln_tc ln_hdl ln_sbp on_treatment smoker diabetes =
     linear_predictor c ln_age ln_tc ln_hdl ln_sbp on_treatment smoker diabetes - MeanTerms c"

definition pce_risk ::
  "coefficients \<Rightarrow> real \<Rightarrow> real \<Rightarrow> real \<Rightarrow> real \<Rightarrow> bool \<Rightarrow> bool \<Rightarrow> bool \<Rightarrow> real" where
  "pce_risk c ln_age ln_tc ln_hdl ln_sbp on_treatment smoker diabetes =
     100 * (1 - S10 c powr
       exp (pce_exponent c ln_age ln_tc ln_hdl ln_sbp on_treatment smoker diabetes))"

text \<open>
  Two characters are the same letter when they are equal or one is the lowercase
  form of the other, which is an uppercase letter.
\<close>

definition same_letter :: "char \<Rightarrow> char \<Rightarrow> bool" where
  "same_letter c d =
     (c = d \<or> (is_upper c \<and> lower_char c = d) \<or> (is_upper d \<and> lower_char d = c))"

section \<open>Strings and the lookup\<close>

lemma norm_literals:
  "py_strip (py_lower ''white'') = ''white''"
  "py_strip (py_lower ''black'') = ''black''"
  "py_strip (py_lower ''other'') = ''other''"
  "py_strip (py_lower ''male'') = ''male''"
  "py_strip (py_lower ''female'') = ''female''"
  by (simp_all add: py_strip_def py_lower_def lower_char_def is_upper_def is_space_def)

lemma select_coefficients_error:
  "select_coefficients sex race = Inl e \<Longrightarrow>
     e = ValueError race_message \<or> e = ValueError sex_message"
  by (auto simp: select_coefficients_def Let_def split: if_splits)

section \<open>Race aliasing\<close>

text \<open>
  Claim C8. Two calls that differ only in that one passes the race \<^verbatim>\<open>other\<close> and
  the other passes \<^verbatim>\<open>white\<close> give the same result, whether that result is a risk
  or an exception.
\<close>

theorem other_is_white:
  "ascvd_10y_risk_pce age sex ''other'' tc hdl sbp on_treatment smoker diabetes =
   ascvd_10y_risk_pce age sex ''white'' tc hdl sbp on_treatment smoker diabetes"
proof -
  have "select_coefficients sex ''other'' = select_coefficients sex ''white''"
    by (simp add: select_coefficients_def norm_literals Let_def)
  then show ?thesis by (simp add: ascvd_10y_risk_pce_def)
qed

section \<open>Inputs outside the domain of the logarithm\<close>

text \<open>
  Claim C4. When any of age, total cholesterol, HDL cholesterol or systolic blood
  pressure is zero or negative, the function raises \<^verbatim>\<open>ValueError\<close> and returns no
  number: either the race or the sex was rejected first, or \<^verbatim>\<open>math.log\<close> raises.
\<close>

theorem nonpositive_rejected:
  assumes "age \<le> 0 \<or> tc \<le> 0 \<or> hdl \<le> 0 \<or> sbp \<le> 0"
  shows "\<exists>msg. ascvd_10y_risk_pce age sex race tc hdl sbp on_treatment smoker diabetes
           = Inl (ValueError msg)"
proof (cases "select_coefficients sex race")
  case (Inl e)
  then show ?thesis
    using select_coefficients_error[OF Inl] by (auto simp: ascvd_10y_risk_pce_def)
next
  case (Inr c)
  with assms show ?thesis
    by (auto simp: ascvd_10y_risk_pce_def math_log_def)
qed

theorem nonpositive_rejected_witness:
  "((0::real) \<le> 0 \<or> (213::real) \<le> 0 \<or> (50::real) \<le> 0 \<or> (120::real) \<le> 0) \<and>
   (\<exists>msg. ascvd_10y_risk_pce 0 ''male'' ''white'' 213 50 120 False False False
           = Inl (ValueError msg))"
  using nonpositive_rejected[of 0 213 50 120 "''male''" "''white''" False False False]
  by simp

section \<open>Risk categories\<close>

text \<open>
  Claim C6. The category chosen in lines 235 to 246 is a total function of the
  percentage: low exactly when it is below 5, borderline exactly when it is at
  least 5 and below 7.5, intermediate exactly when it is at least 7.5 and below
  20, high exactly when it is at least 20. This holds for every real number, so
  also for every clipped one.
\<close>

theorem category_boundaries:
  "(fst (categorise r) = Low_risk \<longleftrightarrow> r < 5) \<and>
   (fst (categorise r) = Borderline_risk \<longleftrightarrow> 5 \<le> r \<and> r < 7.5) \<and>
   (fst (categorise r) = Intermediate_risk \<longleftrightarrow> 7.5 \<le> r \<and> r < 20) \<and>
   (fst (categorise r) = High_risk \<longleftrightarrow> 20 \<le> r)"
  by (auto simp: categorise_def)

section \<open>Bounds on the exponential and the logarithm\<close>

text \<open>
  The largest double lies between \<open>exp 709\<close> and \<open>exp 710\<close>, so
  \<^verbatim>\<open>math.exp\<close> returns for every argument up to 709 and raises for every
  argument from 710 on. The bounds on \<open>exp 1\<close> come from the Taylor series.
\<close>

lemma exp_half_upper: "exp (1 / 2 :: real) \<le> 164873 / 100000"
proof -
  obtain t :: real where t: "\<bar>t\<bar> \<le> \<bar>1 / 2\<bar>"
    and e: "exp (1 / 2 :: real) = (\<Sum>m<8. (1 / 2) ^ m / fact m) + exp t / fact 8 * (1 / 2) ^ 8"
    using Maclaurin_exp_le[of "1 / 2" 8] by blast
  have "exp t \<le> exp (1 / 2)" using t by simp
  then have "exp t \<le> 2" using exp_half_le2 by linarith
  then have "exp t / fact 8 * (1 / 2) ^ 8 \<le> 2 / fact 8 * (1 / 2) ^ 8"
    by (intro mult_right_mono divide_right_mono) simp_all
  with e have "exp (1 / 2 :: real) \<le> (\<Sum>m<8. (1 / 2) ^ m / fact m) + 2 / fact 8 * (1 / 2) ^ 8"
    by linarith
  also have "\<dots> \<le> 164873 / 100000"
    by (simp add: eval_nat_numeral fact_numeral)
  finally show ?thesis .
qed

lemma exp_1_upper: "exp (1::real) \<le> 271832 / 100000"
proof -
  have "exp (1::real) = exp (1 / 2) * exp (1 / 2)" by (simp add: exp_add[symmetric])
  also have "\<dots> \<le> (164873 / 100000) * (164873 / 100000)"
    by (intro mult_mono exp_half_upper) simp_all
  also have "\<dots> \<le> 271832 / 100000" by simp
  finally show ?thesis .
qed

lemma exp_1_lower: "(2718 / 1000 :: real) \<le> exp 1"
proof -
  have "(2718 / 1000 :: real) \<le> (1 + (1 / 64) + (1 / 64)\<^sup>2 / 2) ^ 64"
    by (simp add: power2_eq_square power_divide)
  also have "\<dots> \<le> exp (1 / 64) ^ 64"
    by (intro power_mono exp_lower_Taylor_quadratic) simp_all
  also have "\<dots> = exp 1" by (simp add: exp_of_nat_mult[symmetric])
  finally show ?thesis .
qed

lemma exp_nat: "exp (real n) = exp 1 ^ n"
  using exp_of_nat_mult[of n 1] by simp

lemma exp_709: "exp (709::real) \<le> DBL_MAX"
proof -
  have e70: "exp (1::real) ^ 70 \<le> 2 ^ 101"
  proof -
    have "exp (1::real) ^ 70 \<le> (271832 / 100000) ^ 70"
      by (rule power_mono[OF exp_1_upper]) simp
    also have "\<dots> \<le> 2 ^ 101" by (simp add: power_divide)
    finally show ?thesis .
  qed
  have e9: "exp (1::real) ^ 9 \<le> 2 ^ 13"
  proof -
    have "exp (1::real) ^ 9 \<le> (271832 / 100000) ^ 9"
      by (rule power_mono[OF exp_1_upper]) simp
    also have "\<dots> \<le> 2 ^ 13" by (simp add: power_divide)
    finally show ?thesis .
  qed
  have "exp (709::real) = exp (real 709)" by simp
  also have "\<dots> = (exp 1 ^ 70) ^ 10 * exp 1 ^ 9"
    unfolding exp_nat by (simp add: power_mult[symmetric] power_add[symmetric])
  also have "\<dots> \<le> (2 ^ 101) ^ 10 * 2 ^ 13"
    by (intro mult_mono power_mono e70 e9) simp_all
  also have "\<dots> = 2 ^ 1023" by (simp add: power_mult[symmetric] power_add[symmetric])
  also have "\<dots> \<le> DBL_MAX"
  proof -
    have "(2::real) ^ 1023 = 2 ^ 52 * 2 ^ 971" by (simp add: power_add[symmetric])
    also have "\<dots> \<le> (2 ^ 53 - 1) * 2 ^ 971" by (intro mult_right_mono) simp_all
    finally show ?thesis by (simp add: DBL_MAX_def)
  qed
  finally show ?thesis .
qed

lemma exp_710: "DBL_MAX < exp (710::real)"
proof -
  have e52: "(2::real) ^ 75 \<le> exp 1 ^ 52"
  proof -
    have "(2::real) ^ 75 \<le> (2718 / 1000) ^ 52" by (simp add: power_divide)
    also have "\<dots> \<le> exp 1 ^ 52" by (rule power_mono[OF exp_1_lower]) simp
    finally show ?thesis .
  qed
  have e34: "(2::real) ^ 49 \<le> exp 1 ^ 34"
  proof -
    have "(2::real) ^ 49 \<le> (2718 / 1000) ^ 34" by (simp add: power_divide)
    also have "\<dots> \<le> exp 1 ^ 34" by (rule power_mono[OF exp_1_lower]) simp
    finally show ?thesis .
  qed
  have "DBL_MAX < 2 ^ 53 * 2 ^ 971" unfolding DBL_MAX_def
    by (intro mult_strict_right_mono) simp_all
  also have "\<dots> = (2 ^ 75) ^ 13 * 2 ^ 49" by (simp add: power_mult[symmetric] power_add[symmetric])
  also have "\<dots> \<le> (exp 1 ^ 52) ^ 13 * exp 1 ^ 34"
    by (intro mult_mono power_mono e52 e34) simp_all
  also have "\<dots> = exp (real 710)"
    unfolding exp_nat by (simp add: power_mult[symmetric] power_add[symmetric])
  finally show ?thesis by simp
qed

lemma no_overflow: "x \<le> 709 \<Longrightarrow> \<not> DBL_MAX < exp x"
  using exp_709 exp_le_cancel_iff[of x 709] by linarith

lemma overflow: "710 \<le> x \<Longrightarrow> DBL_MAX < exp x"
  using exp_710 exp_le_cancel_iff[of 710 x] by linarith

lemma ln_le_nat:
  assumes "0 < x" "x \<le> (2718 / 1000) ^ n" shows "ln x \<le> real n"
proof -
  have "(2718 / 1000 :: real) ^ n \<le> exp 1 ^ n" by (rule power_mono[OF exp_1_lower]) simp
  then have "x \<le> exp (real n)" using assms(2) by (simp add: exp_nat)
  then have "ln x \<le> ln (exp (real n))" using assms(1) by (subst ln_le_cancel_iff) simp_all
  then show ?thesis by simp
qed

lemma ln_2_lower: "1 / 2 \<le> ln (2::real)"
  using exp_half_le2 ln_ge_iff[of 2 "1 / 2"] by simp

lemma ln_upto_1000:
  fixes x :: real
  assumes "1 \<le> x" "x \<le> 1000" shows "0 \<le> ln x \<and> ln x \<le> 7"
proof -
  have "(1000::real) \<le> (2718 / 1000) ^ 7" by (simp add: power_divide)
  then show ?thesis using ln_le_nat[of x 7] assms by simp
qed

lemma ln_upto_400:
  fixes x :: real
  assumes "1 \<le> x" "x \<le> 400" shows "0 \<le> ln x \<and> ln x \<le> 6"
proof -
  have "(400::real) \<le> (2718 / 1000) ^ 6" by (simp add: power_divide)
  then show ?thesis using ln_le_nat[of x 6] assms by simp
qed

section \<open>The function on valid input\<close>

lemma terms_of_eq:
  "terms_of c a t h s on_treatment smoker diabetes =
   linear_predictor c a t h s on_treatment smoker diabetes"
  by (simp add: terms_of_def linear_predictor_def Let_def)

lemma exponent_bound:
  assumes c: "c \<in> {female_white, female_black, male_white, male_black}"
    and a: "0 \<le> a" "a \<le> 7" and t: "0 \<le> t" "t \<le> 6"
    and h: "0 \<le> h" "h \<le> 6" and s: "0 \<le> s" "s \<le> 6"
  shows "pce_exponent c a t h s on_treatment smoker diabetes \<le> 709"
proof -
  have aa: "0 \<le> a * a" "a * a \<le> 49" using a mult_mono[of a 7 a 7] by simp_all
  have at: "0 \<le> a * t" "a * t \<le> 42" using a t mult_mono[of a 7 t 6] by simp_all
  have ah: "0 \<le> a * h" "a * h \<le> 42" using a h mult_mono[of a 7 h 6] by simp_all
  have as: "0 \<le> a * s" "a * s \<le> 42" using a s mult_mono[of a 7 s 6] by simp_all
  from c consider "c = female_white" | "c = female_black" | "c = male_white" | "c = male_black"
    by auto
  then show ?thesis
  proof cases
    case 1
    show ?thesis unfolding 1 pce_exponent_def linear_predictor_def female_white_def
      by (simp add: power2_eq_square mult.assoc; insert a t h s aa at ah as;
          (intro conjI impI; linarith)?)
  next
    case 2
    show ?thesis unfolding 2 pce_exponent_def linear_predictor_def female_black_def
      by (simp add: power2_eq_square mult.assoc; insert a t h s aa at ah as;
          (intro conjI impI; linarith)?)
  next
    case 3
    show ?thesis unfolding 3 pce_exponent_def linear_predictor_def male_white_def
      by (simp add: power2_eq_square mult.assoc; insert a t h s aa at ah as;
          (intro conjI impI; linarith)?)
  next
    case 4
    show ?thesis unfolding 4 pce_exponent_def linear_predictor_def male_black_def
      by (simp add: power2_eq_square mult.assoc; insert a t h s aa at ah as;
          (intro conjI impI; linarith)?)
  qed
qed

lemma select_recognised:
  assumes "recognised_sex sex" "recognised_race race"
  shows "select_coefficients sex race = Inr (coefficient_set sex race)"
  using assms
  by (auto simp: recognised_sex_def recognised_race_def select_coefficients_def
      coefficient_set_def Let_def)

lemma select_Inr:
  assumes "select_coefficients sex race = Inr c"
  shows "recognised_sex sex \<and> recognised_race race \<and> c = coefficient_set sex race \<and>
         c \<in> {female_white, female_black, male_white, male_black}"
  using assms
  by (auto simp: recognised_sex_def recognised_race_def select_coefficients_def
      coefficient_set_def Let_def split: if_splits)

lemma S10_range:
  assumes "c \<in> {female_white, female_black, male_white, male_black}"
  shows "0 < S10 c \<and> S10 c < 1"
  using assms by (auto simp: female_white_def female_black_def male_white_def male_black_def)

lemma engine_valid:
  assumes "select_coefficients sex race = Inr c" "0 < age" "0 < tc" "0 < hdl" "0 < sbp"
  shows "ascvd_10y_risk_pce age sex race tc hdl sbp on_treatment smoker diabetes =
     (if DBL_MAX < exp (pce_exponent c (ln age) (ln tc) (ln hdl) (ln sbp)
                          on_treatment smoker diabetes)
      then Inl (OverflowError ''math range error'')
      else Inr (pce_risk c (ln age) (ln tc) (ln hdl) (ln sbp) on_treatment smoker diabetes))"
  using assms
  by (simp add: ascvd_10y_risk_pce_def math_log_def math_exp_def terms_of_eq
      pce_risk_def pce_exponent_def Let_def)

lemma engine_Inr:
  assumes "ascvd_10y_risk_pce age sex race tc hdl sbp on_treatment smoker diabetes = Inr r"
  shows "\<exists>c. select_coefficients sex race = Inr c \<and> 0 < age \<and> 0 < tc \<and> 0 < hdl \<and> 0 < sbp \<and>
     \<not> DBL_MAX < exp (pce_exponent c (ln age) (ln tc) (ln hdl) (ln sbp)
                          on_treatment smoker diabetes) \<and>
     r = pce_risk c (ln age) (ln tc) (ln hdl) (ln sbp) on_treatment smoker diabetes"
  using assms
  by (auto simp: ascvd_10y_risk_pce_def math_log_def math_exp_def terms_of_eq
      pce_risk_def pce_exponent_def Let_def split: sum.splits if_splits)

lemma pce_risk_range:
  assumes "c \<in> {female_white, female_black, male_white, male_black}"
  shows "0 < pce_risk c a t h s on_treatment smoker diabetes \<and>
         pce_risk c a t h s on_treatment smoker diabetes < 100"
proof -
  let ?x = "exp (pce_exponent c a t h s on_treatment smoker diabetes)"
  from S10_range[OF assms] have S: "0 < S10 c" "S10 c < 1" by simp_all
  have "0 < ?x" by simp
  then have "S10 c powr ?x < 1" using S by (simp add: powr01_less_one)
  moreover have "0 < S10 c powr ?x" using S by simp
  ultimately show ?thesis by (simp add: pce_risk_def)
qed

section \<open>The range of the result\<close>

text \<open>
  Claim C2. Every risk percentage that \<^verbatim>\<open>ascvd_10y_risk_pce\<close> returns lies in
  the closed interval from 0 to 100, so the clip of line 232 leaves it unchanged.
  The function returns a number only on valid input (a recognised sex and race
  and positive age, cholesterol values and blood pressure), and the witness is the
  claim's own extreme example, age 200.
\<close>

theorem risk_in_range:
  assumes "ascvd_10y_risk_pce age sex race tc hdl sbp on_treatment smoker diabetes = Inr r"
  shows "0 \<le> r \<and> r \<le> 100 \<and> clip r = r"
proof -
  from engine_Inr[OF assms] obtain c where c: "select_coefficients sex race = Inr c"
    and r: "r = pce_risk c (ln age) (ln tc) (ln hdl) (ln sbp) on_treatment smoker diabetes"
    by blast
  from select_Inr[OF c] have "c \<in> {female_white, female_black, male_white, male_black}"
    by auto
  from pce_risk_range[OF this] r have "0 < r" "r < 100" by simp_all
  then show ?thesis by (simp add: clip_def)
qed

lemma returns_in_box:
  assumes "recognised_sex sex" "recognised_race race"
    and "1 \<le> age" "age \<le> 1000" "1 \<le> tc" "tc \<le> 400"
    and "1 \<le> hdl" "hdl \<le> 400" "1 \<le> sbp" "sbp \<le> 400"
  shows "ascvd_10y_risk_pce age sex race tc hdl sbp on_treatment smoker diabetes =
    Inr (pce_risk (coefficient_set sex race) (ln age) (ln tc) (ln hdl) (ln sbp)
           on_treatment smoker diabetes)"
proof -
  let ?c = "coefficient_set sex race"
  have sel: "select_coefficients sex race = Inr ?c" using assms(1,2) by (rule select_recognised)
  have c: "?c \<in> {female_white, female_black, male_white, male_black}"
    using select_Inr[OF sel] by auto
  have "pce_exponent ?c (ln age) (ln tc) (ln hdl) (ln sbp) on_treatment smoker diabetes \<le> 709"
    using ln_upto_1000[of age] ln_upto_400[of tc] ln_upto_400[of hdl] ln_upto_400[of sbp] assms
    by (intro exponent_bound[OF c]) simp_all
  then have "\<not> DBL_MAX < exp (pce_exponent ?c (ln age) (ln tc) (ln hdl) (ln sbp)
       on_treatment smoker diabetes)" by (rule no_overflow)
  then show ?thesis using engine_valid[OF sel, of age tc hdl sbp] assms by simp
qed

theorem risk_in_range_witness:
  "\<exists>r. ascvd_10y_risk_pce 200 ''female'' ''white'' 213 50 120 False False False = Inr r \<and>
       0 \<le> r \<and> r \<le> 100 \<and> clip r = r"
proof -
  have "ascvd_10y_risk_pce 200 ''female'' ''white'' 213 50 120 False False False =
     Inr (pce_risk (coefficient_set ''female'' ''white'') (ln 200) (ln 213) (ln 50) (ln 120)
           False False False)"
    by (rule returns_in_box) (simp_all add: recognised_sex_def recognised_race_def norm_literals)
  then show ?thesis using risk_in_range by blast
qed

section \<open>The formula\<close>

lemma ln_pow2_1000: "500 \<le> ln ((2::real) ^ 1000)" "ln ((2::real) ^ 1000) \<le> 1000"
proof -
  have e: "ln ((2::real) ^ 1000) = 1000 * ln 2" using ln_realpow[of 2 1000] by simp
  show "500 \<le> ln ((2::real) ^ 1000)" unfolding e using ln_2_lower by simp
  show "ln ((2::real) ^ 1000) \<le> 1000" unfolding e using ln_2_less_1 by simp
qed

text \<open>
  Claim C1, as amended. For every input with a recognised sex and race and with
  age, total cholesterol, HDL cholesterol and systolic blood pressure all
  positive, the function returns \<open>100 * (1 - S10 powr exp (L - MeanTerms))\<close>,
  with \<open>L\<close> the linear predictor of the specification and the constants of the
  coefficient set chosen by sex and race, whenever \<open>exp (L - MeanTerms)\<close> is at
  most the largest double; otherwise \<^verbatim>\<open>math.exp\<close> raises
  \<^verbatim>\<open>OverflowError\<close> and nothing is returned. The claim as stated, without that
  condition, fails at the age \<open>2 ^ 1000\<close>. The witness is the example input of
  the specification.
\<close>

theorem pce_formula:
  assumes "recognised_sex sex" "recognised_race race"
    and "0 < age" "0 < tc" "0 < hdl" "0 < sbp"
  shows "ascvd_10y_risk_pce age sex race tc hdl sbp on_treatment smoker diabetes =
    (let c = coefficient_set sex race;
         L = linear_predictor c (ln age) (ln tc) (ln hdl) (ln sbp) on_treatment smoker diabetes
     in if DBL_MAX < exp (L - MeanTerms c)
        then Inl (OverflowError ''math range error'')
        else Inr (100 * (1 - S10 c powr exp (L - MeanTerms c))))"
  using engine_valid[OF select_recognised[OF assms(1,2)] assms(3-6)]
  by (simp add: Let_def pce_risk_def pce_exponent_def)

theorem pce_formula_witness:
  "recognised_sex ''male'' \<and> recognised_race ''white'' \<and>
   (0::real) < 55 \<and> (0::real) < 213 \<and> (0::real) < 50 \<and> (0::real) < 120 \<and>
   ascvd_10y_risk_pce 55 ''male'' ''white'' 213 50 120 False False False =
     Inr (100 * (1 - 0.9144 powr exp
       (12.344 * ln 55 + 11.853 * ln 213 + - 2.664 * ln 55 * ln 213 +
        - 7.99 * ln 50 + 1.769 * ln 55 * ln 50 + 1.764 * ln 120 - 61.18)))"
proof -
  have rs: "recognised_sex ''male''" and rr: "recognised_race ''white''"
    by (simp_all add: recognised_sex_def recognised_race_def norm_literals)
  have c: "coefficient_set ''male'' ''white'' = male_white"
    by (simp add: coefficient_set_def norm_literals)
  have "pce_exponent male_white (ln 55) (ln 213) (ln 50) (ln 120) False False False \<le> 709"
    using ln_upto_1000[of 55] ln_upto_400[of 213] ln_upto_400[of 50] ln_upto_400[of 120]
    by (intro exponent_bound) simp_all
  then have no: "\<not> DBL_MAX < exp (linear_predictor male_white (ln 55) (ln 213) (ln 50) (ln 120)
      False False False - MeanTerms male_white)"
    unfolding pce_exponent_def by (rule no_overflow)
  have "ascvd_10y_risk_pce 55 ''male'' ''white'' 213 50 120 False False False =
     Inr (100 * (1 - S10 male_white powr exp (linear_predictor male_white (ln 55) (ln 213)
       (ln 50) (ln 120) False False False - MeanTerms male_white)))"
    using pce_formula[OF rs rr, of 55 213 50 120 False False False] no
    by (simp add: c Let_def)
  then show ?thesis using rs rr
    by (simp add: linear_predictor_def male_white_def)
qed

theorem pce_formula_counterexample:
  "ascvd_10y_risk_pce (2 ^ 1000) ''male'' ''black'' 213 50 120 False False False \<noteq>
   Inr (100 * (1 - S10 male_black powr
     exp (linear_predictor male_black (ln (2 ^ 1000)) (ln 213) (ln 50) (ln 120)
            False False False - MeanTerms male_black)))"
proof -
  have sel: "select_coefficients ''male'' ''black'' = Inr male_black"
    by (simp add: select_coefficients_def norm_literals Let_def)
  have gen: "710 \<le> pce_exponent male_black a t h s False False False"
    if "500 \<le> a" "0 \<le> t" "h \<le> 6" "0 \<le> s" for a t h s
    using that by (simp add: pce_exponent_def linear_predictor_def male_black_def)
  have "710 \<le> pce_exponent male_black (ln (2 ^ 1000)) (ln 213) (ln 50) (ln 120)
     False False False"
    using ln_upto_400[of 213] ln_upto_400[of 50] ln_upto_400[of 120]
    by (intro gen ln_pow2_1000) simp_all
  then have "DBL_MAX < exp (pce_exponent male_black (ln (2 ^ 1000)) (ln 213) (ln 50) (ln 120)
     False False False)" by (rule overflow)
  then have "ascvd_10y_risk_pce (2 ^ 1000) ''male'' ''black'' 213 50 120 False False False =
     Inl (OverflowError ''math range error'')"
    using engine_valid[OF sel, of "2 ^ 1000" 213 50 120 False False False] by simp
  then show ?thesis by simp
qed

section \<open>Failure modes on valid input\<close>

text \<open>
  Claim C3, as amended. For every input with a recognised sex and race and with
  age, total cholesterol, HDL cholesterol and systolic blood pressure all
  positive, the function never raises \<^verbatim>\<open>ValueError\<close>. It returns a number
  whenever \<open>L - MeanTerms\<close> is at most 709, and it fails with
  \<^verbatim>\<open>OverflowError\<close>, raised by \<^verbatim>\<open>math.exp\<close>, whenever \<open>L - MeanTerms\<close> is
  at least 710; that is its only failure on such input. The claim as stated, that
  it returns for arbitrarily extreme positive values, fails at the age
  \<open>2 ^ 1000\<close>.
\<close>

theorem overflow_only_failure:
  assumes "recognised_sex sex" "recognised_race race"
    and "0 < age" "0 < tc" "0 < hdl" "0 < sbp"
  shows
    "(pce_exponent (coefficient_set sex race) (ln age) (ln tc) (ln hdl) (ln sbp)
        on_treatment smoker diabetes \<le> 709 \<longrightarrow>
      (\<exists>r. ascvd_10y_risk_pce age sex race tc hdl sbp on_treatment smoker diabetes = Inr r)) \<and>
     (710 \<le> pce_exponent (coefficient_set sex race) (ln age) (ln tc) (ln hdl) (ln sbp)
        on_treatment smoker diabetes \<longrightarrow>
      ascvd_10y_risk_pce age sex race tc hdl sbp on_treatment smoker diabetes =
        Inl (OverflowError ''math range error'')) \<and>
     (\<forall>e. ascvd_10y_risk_pce age sex race tc hdl sbp on_treatment smoker diabetes = Inl e \<longrightarrow>
        e = OverflowError ''math range error'' \<and>
        DBL_MAX < exp (pce_exponent (coefficient_set sex race) (ln age) (ln tc) (ln hdl)
                         (ln sbp) on_treatment smoker diabetes))"
  using engine_valid[OF select_recognised[OF assms(1,2)] assms(3-6),
      of on_treatment smoker diabetes]
    no_overflow[of "pce_exponent (coefficient_set sex race) (ln age) (ln tc) (ln hdl) (ln sbp)
        on_treatment smoker diabetes"]
    overflow[of "pce_exponent (coefficient_set sex race) (ln age) (ln tc) (ln hdl) (ln sbp)
        on_treatment smoker diabetes"]
  by (auto split: if_splits)

theorem overflow_only_failure_witness:
  "recognised_sex ''female'' \<and> recognised_race ''black'' \<and>
   (0::real) < 55 \<and> (0::real) < 213 \<and> (0::real) < 50 \<and> (0::real) < 120 \<and>
   pce_exponent (coefficient_set ''female'' ''black'') (ln 55) (ln 213) (ln 50) (ln 120)
      True False True \<le> 709 \<and>
   (\<exists>r. ascvd_10y_risk_pce 55 ''female'' ''black'' 213 50 120 True False True = Inr r)"
proof -
  have rs: "recognised_sex ''female''" and rr: "recognised_race ''black''"
    by (simp_all add: recognised_sex_def recognised_race_def norm_literals)
  have c: "coefficient_set ''female'' ''black'' = female_black"
    by (simp add: coefficient_set_def norm_literals)
  have b: "pce_exponent (coefficient_set ''female'' ''black'') (ln 55) (ln 213) (ln 50) (ln 120)
      True False True \<le> 709"
    unfolding c
    using ln_upto_1000[of 55] ln_upto_400[of 213] ln_upto_400[of 50] ln_upto_400[of 120]
    by (intro exponent_bound) simp_all
  show ?thesis
    using overflow_only_failure[OF rs rr, of 55 213 50 120 True False True] rs rr b by simp
qed

theorem overflow_only_failure_counterexample:
  "ascvd_10y_risk_pce (2 ^ 1000) ''female'' ''white'' 213 50 120 True True True =
     Inl (OverflowError ''math range error'')"
proof -
  have sel: "select_coefficients ''female'' ''white'' = Inr female_white"
    by (simp add: select_coefficients_def norm_literals Let_def)
  have gen: "710 \<le> pce_exponent female_white a t h s True True True"
    if a: "500 \<le> a" and t: "0 \<le> t" "t \<le> 6" and h: "0 \<le> h" "h \<le> 6" and s: "0 \<le> s"
    for a t h s
  proof -
    have aa: "500 * a \<le> a * a" using a by (intro mult_right_mono) simp_all
    have at: "a * t \<le> a * 6" using a t by (intro mult_left_mono) simp_all
    have ah: "0 \<le> a * h" using a h by simp
    show ?thesis
      unfolding pce_exponent_def linear_predictor_def female_white_def
      by (simp add: power2_eq_square mult.assoc; insert a t h s aa at ah; linarith)
  qed
  have "710 \<le> pce_exponent female_white (ln (2 ^ 1000)) (ln 213) (ln 50) (ln 120)
     True True True"
    using ln_upto_400[of 213] ln_upto_400[of 50] ln_upto_400[of 120]
    by (intro gen ln_pow2_1000) simp_all
  then have "DBL_MAX < exp (pce_exponent female_white (ln (2 ^ 1000)) (ln 213) (ln 50) (ln 120)
     True True True)" by (rule overflow)
  then show ?thesis
    using engine_valid[OF sel, of "2 ^ 1000" 213 50 120 True True True] by simp
qed

section \<open>The lookup of the coefficient set\<close>

lemma four_sets_distinct:
  "distinct [female_white, female_black, male_white, male_black]"
  by (simp add: female_white_def female_black_def male_white_def male_black_def)

lemma select_cases:
  "select_coefficients sex race =
     (if \<not> recognised_race race then Inl (ValueError race_message)
      else if \<not> recognised_sex sex then Inl (ValueError sex_message)
      else Inr (coefficient_set sex race))"
  by (auto simp: recognised_sex_def recognised_race_def select_coefficients_def
      coefficient_set_def Let_def)

lemma engine_after_select:
  assumes "select_coefficients sex race = Inr c"
  shows "ascvd_10y_risk_pce age sex race tc hdl sbp on_treatment smoker diabetes
           \<noteq> Inl (ValueError race_message) \<and>
         ascvd_10y_risk_pce age sex race tc hdl sbp on_treatment smoker diabetes
           \<noteq> Inl (ValueError sex_message)"
  using assms
  by (auto simp: ascvd_10y_risk_pce_def math_log_def math_exp_def Let_def
      race_message_def sex_message_def split: if_splits)

text \<open>
  Claim C5. The function fails with a \<^verbatim>\<open>ValueError\<close> whose message names the
  field exactly when the sex is not one of male and female or the race is not
  one of white, black and other: the message names the race when the race is not
  recognised, and the sex when the race is recognised and the sex is not. The
  values are read as the function reads them, after the lowercasing and stripping
  of lines 47 and 48. Every recognised pair selects one coefficient set, the one
  of its sex and of its race with other taken as white, and the four sets are
  pairwise different.
\<close>

theorem lookup_total:
  "(ascvd_10y_risk_pce age sex race tc hdl sbp on_treatment smoker diabetes
      \<in> {Inl (ValueError race_message), Inl (ValueError sex_message)}
    \<longleftrightarrow> \<not> (recognised_sex sex \<and> recognised_race race)) \<and>
   (ascvd_10y_risk_pce age sex race tc hdl sbp on_treatment smoker diabetes
      = Inl (ValueError race_message) \<longleftrightarrow> \<not> recognised_race race) \<and>
   (ascvd_10y_risk_pce age sex race tc hdl sbp on_treatment smoker diabetes
      = Inl (ValueError sex_message) \<longleftrightarrow> recognised_race race \<and> \<not> recognised_sex sex) \<and>
   (py_strip (py_lower sex) = ''female'' \<and> py_strip (py_lower race) \<in> {''white'', ''other''}
      \<longrightarrow> select_coefficients sex race = Inr female_white) \<and>
   (py_strip (py_lower sex) = ''female'' \<and> py_strip (py_lower race) = ''black''
      \<longrightarrow> select_coefficients sex race = Inr female_black) \<and>
   (py_strip (py_lower sex) = ''male'' \<and> py_strip (py_lower race) \<in> {''white'', ''other''}
      \<longrightarrow> select_coefficients sex race = Inr male_white) \<and>
   (py_strip (py_lower sex) = ''male'' \<and> py_strip (py_lower race) = ''black''
      \<longrightarrow> select_coefficients sex race = Inr male_black) \<and>
   distinct [female_white, female_black, male_white, male_black]"
proof -
  have msg: "race_message \<noteq> sex_message" by (simp add: race_message_def sex_message_def)
  have e1: "ascvd_10y_risk_pce age sex race tc hdl sbp on_treatment smoker diabetes
      = Inl (ValueError race_message) \<longleftrightarrow> \<not> recognised_race race"
  proof (cases "select_coefficients sex race")
    case (Inl e)
    then show ?thesis using msg
      by (auto simp: ascvd_10y_risk_pce_def select_cases split: if_splits)
  next
    case (Inr c)
    then show ?thesis using engine_after_select[OF Inr, of age tc hdl sbp on_treatment smoker diabetes]
      by (auto simp: select_cases split: if_splits)
  qed
  have e2: "ascvd_10y_risk_pce age sex race tc hdl sbp on_treatment smoker diabetes
      = Inl (ValueError sex_message) \<longleftrightarrow> recognised_race race \<and> \<not> recognised_sex sex"
  proof (cases "select_coefficients sex race")
    case (Inl e)
    then show ?thesis using msg
      by (auto simp: ascvd_10y_risk_pce_def select_cases split: if_splits)
  next
    case (Inr c)
    then show ?thesis using engine_after_select[OF Inr, of age tc hdl sbp on_treatment smoker diabetes]
      by (auto simp: select_cases split: if_splits)
  qed
  have e0: "ascvd_10y_risk_pce age sex race tc hdl sbp on_treatment smoker diabetes
      \<in> {Inl (ValueError race_message), Inl (ValueError sex_message)}
    \<longleftrightarrow> \<not> (recognised_sex sex \<and> recognised_race race)"
    using e1 e2 by auto
  have s: "(py_strip (py_lower sex) = ''female'' \<and> py_strip (py_lower race) \<in> {''white'', ''other''}
      \<longrightarrow> select_coefficients sex race = Inr female_white) \<and>
   (py_strip (py_lower sex) = ''female'' \<and> py_strip (py_lower race) = ''black''
      \<longrightarrow> select_coefficients sex race = Inr female_black) \<and>
   (py_strip (py_lower sex) = ''male'' \<and> py_strip (py_lower race) \<in> {''white'', ''other''}
      \<longrightarrow> select_coefficients sex race = Inr male_white) \<and>
   (py_strip (py_lower sex) = ''male'' \<and> py_strip (py_lower race) = ''black''
      \<longrightarrow> select_coefficients sex race = Inr male_black)"
    by (auto simp: select_coefficients_def Let_def)
  show ?thesis using e0 e1 e2 s four_sets_distinct by blast
qed

theorem lookup_total_witness:
  "py_strip (py_lower ''female'') = ''female'' \<and>
   py_strip (py_lower ''other'') \<in> {''white'', ''other''} \<and>
   select_coefficients ''female'' ''other'' = Inr female_white \<and>
   \<not> (recognised_sex ''unknown'' \<and> recognised_race ''white'') \<and>
   ascvd_10y_risk_pce 55 ''unknown'' ''white'' 213 50 120 False False False
     = Inl (ValueError sex_message) \<and>
   ascvd_10y_risk_pce 55 ''male'' ''asian'' 213 50 120 False False False
     = Inl (ValueError race_message)"
proof -
  have n: "py_strip (py_lower ''unknown'') = ''unknown''"
    "py_strip (py_lower ''asian'') = ''asian''"
    by (simp_all add: py_strip_def py_lower_def lower_char_def is_upper_def is_space_def)
  have a: "\<not> recognised_sex ''unknown''" "recognised_race ''white''"
    "\<not> recognised_race ''asian''"
    by (simp_all add: recognised_sex_def recognised_race_def n norm_literals)
  show ?thesis
    using lookup_total[of 55 "''unknown''" "''white''" 213 50 120 False False False]
      lookup_total[of 55 "''male''" "''asian''" 213 50 120 False False False]
      lookup_total[of 55 "''female''" "''other''" 213 50 120 False False False]
      a
    by (simp add: norm_literals)
qed

section \<open>Case and surrounding whitespace\<close>

lemma lower_char_idem: "lower_char (lower_char c) = lower_char c"
  by (auto simp: lower_char_def is_upper_def Let_def)

lemma same_letter_lower: "same_letter c d \<Longrightarrow> lower_char c = lower_char d"
  using lower_char_idem by (auto simp: same_letter_def)

lemma same_letters_lower:
  "list_all2 same_letter s t \<Longrightarrow> py_lower s = py_lower t"
  unfolding py_lower_def
  by (induction rule: list_all2_induct) (auto dest: same_letter_lower)

lemma space_lower: "is_space c \<Longrightarrow> lower_char c = c"
  by (auto simp: lower_char_def is_upper_def is_space_def Let_def)

lemma spaces_lower: "\<forall>c\<in>set l. is_space c \<Longrightarrow> py_lower l = l"
  unfolding py_lower_def by (induction l) (auto simp: space_lower)

lemma strip_padding:
  assumes l: "\<forall>c\<in>set l. is_space c" and r: "\<forall>c\<in>set r. is_space c"
  shows "py_strip (l @ s @ r) = py_strip s"
proof -
  have 1: "dropWhile is_space (l @ s @ r) = dropWhile is_space (s @ r)"
    using l by (simp add: dropWhile_append2)
  show ?thesis
  proof (cases "\<forall>c\<in>set s. is_space c")
    case True
    then have a: "dropWhile is_space (s @ r) = []" and b: "dropWhile is_space s = []"
      using r by (auto simp: dropWhile_eq_Nil_conv)
    show ?thesis by (simp only: py_strip_def 1 a b)
  next
    case False
    then obtain c where "c \<in> set s" "\<not> is_space c" by blast
    then have "dropWhile is_space (s @ r) = dropWhile is_space s @ r"
      by (simp add: dropWhile_append1)
    moreover have "dropWhile is_space (rev r @ rev (dropWhile is_space s)) =
        dropWhile is_space (rev (dropWhile is_space s))"
      using r by (intro dropWhile_append2) simp
    ultimately show ?thesis using 1 by (simp add: py_strip_def)
  qed
qed

lemma normalise_variant:
  assumes "\<forall>c\<in>set l. is_space c" "\<forall>c\<in>set r. is_space c" "list_all2 same_letter s t"
  shows "py_strip (py_lower (l @ s @ r)) = py_strip (py_lower t)"
proof -
  have "py_lower (l @ s @ r) = l @ py_lower t @ r"
    using spaces_lower[OF assms(1)] spaces_lower[OF assms(2)] same_letters_lower[OF assms(3)]
    by (simp add: py_lower_def)
  then show ?thesis using strip_padding[OF assms(1,2)] by simp
qed

text \<open>
  Claim C10. The function lowercases and strips the sex and the race before it
  checks and looks them up. Take an input whose sex and race are those of another
  input up to the case of their letters and up to whitespace before and after.
  The two calls give the same result. When the other input's sex is
  \<^verbatim>\<open>male\<close> or \<^verbatim>\<open>female\<close> and its race is \<^verbatim>\<open>white\<close>, \<^verbatim>\<open>black\<close> or
  \<^verbatim>\<open>other\<close>, the function accepts both: the lookup of each call returns the
  coefficient set of that sex and race, neither call raises the error for the
  race or the sex, and with positive numbers and an exponent of at most 709 each
  call returns the risk of the formula. So \<^verbatim>\<open>" Male "\<close> and \<^verbatim>\<open>"male"\<close> are
  both accepted and give the same output.
\<close>

theorem case_and_padding_ignored:
  assumes "\<forall>c\<in>set l1. is_space c" "\<forall>c\<in>set r1. is_space c" "list_all2 same_letter sex' sex"
    and "\<forall>c\<in>set l2. is_space c" "\<forall>c\<in>set r2. is_space c" "list_all2 same_letter race' race"
  shows "ascvd_10y_risk_pce age (l1 @ sex' @ r1) (l2 @ race' @ r2) tc hdl sbp
            on_treatment smoker diabetes =
         ascvd_10y_risk_pce age sex race tc hdl sbp on_treatment smoker diabetes \<and>
         (recognised_sex (l1 @ sex' @ r1) \<longleftrightarrow> recognised_sex sex) \<and>
         (recognised_race (l2 @ race' @ r2) \<longleftrightarrow> recognised_race race) \<and>
         (sex \<in> {''male'', ''female''} \<and> race \<in> {''white'', ''black'', ''other''} \<longrightarrow>
            select_coefficients (l1 @ sex' @ r1) (l2 @ race' @ r2)
              = Inr (coefficient_set sex race) \<and>
            select_coefficients sex race = Inr (coefficient_set sex race) \<and>
            ascvd_10y_risk_pce age (l1 @ sex' @ r1) (l2 @ race' @ r2) tc hdl sbp
              on_treatment smoker diabetes
              \<notin> {Inl (ValueError race_message), Inl (ValueError sex_message)} \<and>
            ascvd_10y_risk_pce age sex race tc hdl sbp on_treatment smoker diabetes
              \<notin> {Inl (ValueError race_message), Inl (ValueError sex_message)} \<and>
            (0 < age \<and> 0 < tc \<and> 0 < hdl \<and> 0 < sbp \<and>
             pce_exponent (coefficient_set sex race) (ln age) (ln tc) (ln hdl) (ln sbp)
               on_treatment smoker diabetes \<le> 709 \<longrightarrow>
               ascvd_10y_risk_pce age (l1 @ sex' @ r1) (l2 @ race' @ r2) tc hdl sbp
                 on_treatment smoker diabetes
                 = Inr (pce_risk (coefficient_set sex race) (ln age) (ln tc) (ln hdl) (ln sbp)
                          on_treatment smoker diabetes) \<and>
               ascvd_10y_risk_pce age sex race tc hdl sbp on_treatment smoker diabetes
                 = Inr (pce_risk (coefficient_set sex race) (ln age) (ln tc) (ln hdl) (ln sbp)
                          on_treatment smoker diabetes)))"
proof -
  let ?sex = "l1 @ sex' @ r1" and ?race = "l2 @ race' @ r2"
  let ?c = "coefficient_set sex race"
  have s: "py_strip (py_lower ?sex) = py_strip (py_lower sex)"
    using assms(1-3) by (rule normalise_variant)
  have r: "py_strip (py_lower ?race) = py_strip (py_lower race)"
    using assms(4-6) by (rule normalise_variant)
  have sel: "select_coefficients ?sex ?race = select_coefficients sex race"
    by (simp add: select_coefficients_def s r)
  have same: "ascvd_10y_risk_pce age ?sex ?race tc hdl sbp on_treatment smoker diabetes =
      ascvd_10y_risk_pce age sex race tc hdl sbp on_treatment smoker diabetes"
    using sel by (simp add: ascvd_10y_risk_pce_def)
  have rec: "(recognised_sex ?sex \<longleftrightarrow> recognised_sex sex) \<and>
      (recognised_race ?race \<longleftrightarrow> recognised_race race)"
    by (simp add: recognised_sex_def recognised_race_def s r)
  have acc: "select_coefficients ?sex ?race = Inr ?c \<and>
      select_coefficients sex race = Inr ?c \<and>
      ascvd_10y_risk_pce age ?sex ?race tc hdl sbp on_treatment smoker diabetes
        \<notin> {Inl (ValueError race_message), Inl (ValueError sex_message)} \<and>
      ascvd_10y_risk_pce age sex race tc hdl sbp on_treatment smoker diabetes
        \<notin> {Inl (ValueError race_message), Inl (ValueError sex_message)} \<and>
      (0 < age \<and> 0 < tc \<and> 0 < hdl \<and> 0 < sbp \<and>
       pce_exponent ?c (ln age) (ln tc) (ln hdl) (ln sbp) on_treatment smoker diabetes \<le> 709 \<longrightarrow>
         ascvd_10y_risk_pce age ?sex ?race tc hdl sbp on_treatment smoker diabetes
           = Inr (pce_risk ?c (ln age) (ln tc) (ln hdl) (ln sbp) on_treatment smoker diabetes) \<and>
         ascvd_10y_risk_pce age sex race tc hdl sbp on_treatment smoker diabetes
           = Inr (pce_risk ?c (ln age) (ln tc) (ln hdl) (ln sbp) on_treatment smoker diabetes))"
    if lit: "sex \<in> {''male'', ''female''} \<and> race \<in> {''white'', ''black'', ''other''}"
  proof -
    have "recognised_sex sex" "recognised_race race"
      using lit by (auto simp: recognised_sex_def recognised_race_def norm_literals)
    then have so: "select_coefficients sex race = Inr ?c" by (rule select_recognised)
    have no: "ascvd_10y_risk_pce age sex race tc hdl sbp on_treatment smoker diabetes
        \<notin> {Inl (ValueError race_message), Inl (ValueError sex_message)}"
      using engine_after_select[OF so, of age tc hdl sbp on_treatment smoker diabetes] by simp
    have ret: "ascvd_10y_risk_pce age sex race tc hdl sbp on_treatment smoker diabetes
        = Inr (pce_risk ?c (ln age) (ln tc) (ln hdl) (ln sbp) on_treatment smoker diabetes)"
      if v: "0 < age \<and> 0 < tc \<and> 0 < hdl \<and> 0 < sbp \<and>
        pce_exponent ?c (ln age) (ln tc) (ln hdl) (ln sbp) on_treatment smoker diabetes \<le> 709"
    proof -
      have "\<not> DBL_MAX < exp (pce_exponent ?c (ln age) (ln tc) (ln hdl) (ln sbp)
          on_treatment smoker diabetes)" using v by (intro no_overflow) simp
      then show ?thesis
        using engine_valid[OF so, of age tc hdl sbp on_treatment smoker diabetes] v by simp
    qed
    show ?thesis using so no ret sel same by simp
  qed
  show ?thesis using same rec acc by blast
qed

theorem case_and_padding_ignored_witness:
  "list_all is_space '' '' \<and> list_all2 same_letter ''Male'' ''male'' \<and>
   list_all2 same_letter ''WHITE'' ''white'' \<and>
   ''male'' \<in> {''male'', ''female''} \<and> ''white'' \<in> {''white'', ''black'', ''other''} \<and>
   select_coefficients '' Male '' '' WHITE '' = Inr male_white \<and>
   ascvd_10y_risk_pce 55 '' Male '' '' WHITE '' 213 50 120 False False False =
     Inr (pce_risk male_white (ln 55) (ln 213) (ln 50) (ln 120) False False False) \<and>
   ascvd_10y_risk_pce 55 ''male'' ''white'' 213 50 120 False False False =
     Inr (pce_risk male_white (ln 55) (ln 213) (ln 50) (ln 120) False False False) \<and>
   recognised_sex '' Male '' \<and> recognised_race '' WHITE ''"
proof -
  have sp: "\<forall>c\<in>set '' ''. is_space c" by (simp add: is_space_def)
  have m: "list_all2 same_letter ''Male'' ''male''" by code_simp
  have w: "list_all2 same_letter ''WHITE'' ''white''" by code_simp
  have rs: "recognised_sex ''male''" and rr: "recognised_race ''white''"
    by (simp_all add: recognised_sex_def recognised_race_def norm_literals)
  have c: "coefficient_set ''male'' ''white'' = male_white"
    by (simp add: coefficient_set_def norm_literals)
  have b: "pce_exponent male_white (ln 55) (ln 213) (ln 50) (ln 120) False False False \<le> 709"
    using ln_upto_1000[of 55] ln_upto_400[of 213] ln_upto_400[of 50] ln_upto_400[of 120]
    by (intro exponent_bound) simp_all
  show ?thesis
    using case_and_padding_ignored[OF sp sp m sp sp w, of 55 213 50 120 False False False]
      sp m w rs rr b
    by (simp add: list_all_iff c)
qed

section \<open>HDL cholesterol\<close>

lemma ln_lower_pow:
  fixes x :: real
  assumes "0 < x" "(271832 / 100000) ^ m \<le> x ^ n"
  shows "real m \<le> real n * ln x"
proof -
  have "exp (real m) \<le> (271832 / 100000) ^ m"
    unfolding exp_nat by (rule power_mono[OF exp_1_upper]) simp
  then have "exp (real m) \<le> x ^ n" using assms(2) by linarith
  then have "real m \<le> ln (x ^ n)" using assms(1) by (simp add: ln_ge_iff)
  then show ?thesis by (simp add: ln_realpow)
qed

lemma ln_upper_pow:
  fixes x :: real
  assumes "0 < x" "x ^ n \<le> (2718 / 1000) ^ m"
  shows "real n * ln x \<le> real m"
proof -
  have "(2718 / 1000 :: real) ^ m \<le> exp (real m)"
    unfolding exp_nat by (rule power_mono[OF exp_1_lower]) simp
  then have "x ^ n \<le> exp (real m)" using assms(2) by linarith
  then have "ln (x ^ n) \<le> ln (exp (real m))"
    using assms(1) by (subst ln_le_cancel_iff) simp_all
  then show ?thesis by (simp add: ln_realpow)
qed

lemma ln_79_lower: "17 / 4 \<le> ln (79::real)"
proof -
  have "(271832 / 100000 :: real) ^ 17 \<le> 79 ^ 4" by (simp add: power_divide)
  from ln_lower_pow[OF _ this] show ?thesis by simp
qed

lemma ln_55_upper: "ln (55::real) \<le> 9 / 2"
proof -
  have "(55::real) ^ 2 \<le> (2718 / 1000) ^ 9" by (simp add: power_divide)
  from ln_upper_pow[OF _ this] show ?thesis by simp
qed

lemma exponent_hdl:
  "pce_exponent c a t h2 s on_treatment smoker diabetes -
   pce_exponent c a t h1 s on_treatment smoker diabetes =
   (CHDLChol c + CAgeHDLChol c * a) * (h2 - h1)"
  by (simp add: pce_exponent_def linear_predictor_def algebra_simps)

lemma risk_mono:
  assumes c: "c \<in> {female_white, female_black, male_white, male_black}"
  shows "pce_risk c a t h1 s on_treatment smoker diabetes
           \<le> pce_risk c a t h2 s on_treatment smoker diabetes \<longleftrightarrow>
         pce_exponent c a t h1 s on_treatment smoker diabetes
           \<le> pce_exponent c a t h2 s on_treatment smoker diabetes"
proof -
  from S10_range[OF c] have S: "0 < S10 c" "S10 c < 1" by simp_all
  have less: "S10 c powr exp y < S10 c powr exp x" if "x < y" for x y :: real
    using that S by (intro powr_less_mono') simp_all
  let ?e1 = "pce_exponent c a t h1 s on_treatment smoker diabetes"
  let ?e2 = "pce_exponent c a t h2 s on_treatment smoker diabetes"
  have "S10 c powr exp ?e2 \<le> S10 c powr exp ?e1 \<longleftrightarrow> ?e1 \<le> ?e2"
  proof
    assume le: "S10 c powr exp ?e2 \<le> S10 c powr exp ?e1"
    show "?e1 \<le> ?e2"
    proof (rule ccontr)
      assume "\<not> ?e1 \<le> ?e2"
      then have "?e2 < ?e1" by simp
      from less[OF this] le show False by simp
    qed
  next
    assume "?e1 \<le> ?e2"
    then consider "?e1 < ?e2" | "?e1 = ?e2" by linarith
    then show "S10 c powr exp ?e2 \<le> S10 c powr exp ?e1"
    proof cases
      case 1 from less[OF this] show ?thesis by simp
    next
      case 2 then show ?thesis by simp
    qed
  qed
  then show ?thesis by (simp add: pce_risk_def)
qed

lemma powr_exp_slope:
  fixes S :: real
  assumes S: "0 < S" "S < 1"
  shows "\<bar>S powr exp x - S powr exp y\<bar> \<le> (37 / 100) * \<bar>x - y\<bar>"
proof -
  define f where "f = (\<lambda>t. exp (exp t * ln S))"
  define f' where "f' = (\<lambda>t. exp (exp t * ln S) * (exp t * ln S))"
  have fS: "S powr exp t = f t" for t using S by (simp add: powr_def f_def)
  have d: "DERIV f t :> f' t" for t
    unfolding f_def f'_def by (auto intro!: derivative_eq_intros)
  have bound: "\<bar>f' t\<bar> \<le> 37 / 100" for t
  proof -
    define u where "u = exp t * (- ln S)"
    have lnS: "ln S < 0" using S by (intro ln_less_zero)
    then have u: "0 < u" unfolding u_def by (intro mult_pos_pos) simp_all
    have "1 + (u - 1) \<le> exp (u - 1)" by (rule exp_ge_add_one_self)
    then have "u \<le> exp u * exp (- 1)" by (simp add: exp_diff exp_minus field_simps)
    then have "u * exp (- u) \<le> exp u * exp (- 1) * exp (- u)"
      by (intro mult_right_mono) simp_all
    then have "u * exp (- u) \<le> exp (- 1)" by (simp add: exp_minus field_simps)
    moreover have "exp (- 1 :: real) \<le> 37 / 100"
    proof -
      have "exp (- 1 :: real) = 1 / exp 1" by (simp add: exp_minus field_simps)
      also have "\<dots> \<le> 1 / (2718 / 1000)"
        using exp_1_lower by (intro divide_left_mono) simp_all
      also have "\<dots> \<le> 37 / 100" by simp
      finally show ?thesis .
    qed
    moreover have "\<bar>f' t\<bar> = u * exp (- u)"
    proof -
      have "f' t = - (u * exp (- u))" by (simp add: f'_def u_def)
      moreover have "0 \<le> u * exp (- u)" using u by simp
      ultimately show ?thesis by simp
    qed
    ultimately show ?thesis by linarith
  qed
  have le: "\<bar>f b - f a\<bar> \<le> (37 / 100) * \<bar>b - a\<bar>" if "a < b" for a b
  proof -
    from MVT2[of a b f f'] that d obtain z where "f b - f a = (b - a) * f' z" by blast
    then have "\<bar>f b - f a\<bar> = \<bar>b - a\<bar> * \<bar>f' z\<bar>" by (simp add: abs_mult)
    also have "\<dots> \<le> \<bar>b - a\<bar> * (37 / 100)" using bound by (intro mult_left_mono) simp_all
    finally show ?thesis by (simp add: mult.commute)
  qed
  consider "x < y" | "y < x" | "x = y" by linarith
  then show ?thesis
  proof cases
    case 1 from le[OF this] show ?thesis unfolding fS by (simp add: abs_minus_commute)
  next
    case 2 from le[OF this] show ?thesis unfolding fS by (simp add: abs_minus_commute)
  next
    case 3 then show ?thesis by simp
  qed
qed

lemma risk_slope:
  assumes "c \<in> {female_white, female_black, male_white, male_black}"
  shows "\<bar>100 * (1 - S10 c powr exp x) - 100 * (1 - S10 c powr exp y)\<bar> \<le> 37 * \<bar>x - y\<bar>"
proof -
  from S10_range[OF assms] have "0 < S10 c" "S10 c < 1" by simp_all
  from powr_exp_slope[OF this, of x y]
  have "100 * \<bar>S10 c powr exp x - S10 c powr exp y\<bar> \<le> 37 * \<bar>x - y\<bar>" by simp
  moreover have "\<bar>100 * (1 - S10 c powr exp x) - 100 * (1 - S10 c powr exp y)\<bar> =
      100 * \<bar>S10 c powr exp x - S10 c powr exp y\<bar>"
    by (simp add: abs_if)
  ultimately show ?thesis by linarith
qed

lemma hdl_order_rounded:
  assumes c: "c \<in> {female_white, female_black, male_white, male_black}"
    and hdl: "0 < hdl1" "hdl1 < hdl2"
    and k: "CHDLChol c + CAgeHDLChol c * a \<le> 0"
    and d: "\<bar>d1\<bar> \<le> 1 / 10 ^ 6" "\<bar>d2\<bar> \<le> 1 / 10 ^ 6"
  shows "100 * (1 - S10 c powr
           exp (pce_exponent c a t (ln hdl2) s on_treatment smoker diabetes + d2))
         \<le> 100 * (1 - S10 c powr
           exp (pce_exponent c a t (ln hdl1) s on_treatment smoker diabetes + d1))
           + 1 / 10000"
proof -
  let ?e1 = "pce_exponent c a t (ln hdl1) s on_treatment smoker diabetes"
  let ?e2 = "pce_exponent c a t (ln hdl2) s on_treatment smoker diabetes"
  let ?r = "\<lambda>x. 100 * (1 - S10 c powr exp x)"
  have "0 < ln hdl2 - ln hdl1" using hdl by simp
  then have "(CHDLChol c + CAgeHDLChol c * a) * (ln hdl2 - ln hdl1) \<le> 0"
    using k by (simp add: mult_le_0_iff)
  then have "?e2 \<le> ?e1"
    using exponent_hdl[of c a t "ln hdl2" s on_treatment smoker diabetes "ln hdl1"] by linarith
  then have exact: "?r ?e2 \<le> ?r ?e1"
    using risk_mono[OF c, of a t "ln hdl2" s on_treatment smoker diabetes "ln hdl1"]
    by (simp add: pce_risk_def)
  have "\<bar>?r (?e2 + d2) - ?r ?e2\<bar> \<le> 37 * \<bar>d2\<bar>"
    using risk_slope[OF c, of "?e2 + d2" ?e2] by simp
  moreover have "\<bar>?r (?e1 + d1) - ?r ?e1\<bar> \<le> 37 * \<bar>d1\<bar>"
    using risk_slope[OF c, of "?e1 + d1" ?e1] by simp
  ultimately show ?thesis using exact d by (simp add: abs_le_iff)
qed

lemma hdl_order_exact:
  assumes sel: "select_coefficients sex race = Inr c"
    and hdl: "0 < hdl1" "hdl1 < hdl2"
    and k: "CHDLChol c + CAgeHDLChol c * ln age \<le> 0"
    and r1: "ascvd_10y_risk_pce age sex race tc hdl1 sbp on_treatment smoker diabetes = Inr r1"
  shows "\<exists>r2. ascvd_10y_risk_pce age sex race tc hdl2 sbp on_treatment smoker diabetes
                 = Inr r2 \<and> r2 \<le> r1"
proof -
  let ?e = "\<lambda>h. pce_exponent c (ln age) (ln tc) (ln h) (ln sbp) on_treatment smoker diabetes"
  let ?r = "\<lambda>h. pce_risk c (ln age) (ln tc) (ln h) (ln sbp) on_treatment smoker diabetes"
  let ?k = "CHDLChol c + CAgeHDLChol c * ln age"
  from engine_Inr[OF r1] sel have pos: "0 < age" "0 < tc" "0 < sbp"
    and no1: "\<not> DBL_MAX < exp (?e hdl1)" and r1': "r1 = ?r hdl1" by auto
  have c: "c \<in> {female_white, female_black, male_white, male_black}"
    using select_Inr[OF sel] by auto
  have hdl2: "0 < hdl2" using hdl by simp
  have lnh: "0 < ln hdl2 - ln hdl1" using hdl by simp
  have diff: "?e hdl2 - ?e hdl1 = ?k * (ln hdl2 - ln hdl1)" by (rule exponent_hdl)
  have eq2: "ascvd_10y_risk_pce age sex race tc hdl2 sbp on_treatment smoker diabetes =
     (if DBL_MAX < exp (?e hdl2) then Inl (OverflowError ''math range error'')
      else Inr (?r hdl2))"
    using engine_valid[OF sel pos(1,2) hdl2 pos(3)] .
  have "?k * (ln hdl2 - ln hdl1) \<le> 0" using k lnh by (simp add: mult_le_0_iff)
  then have le: "?e hdl2 \<le> ?e hdl1" using diff by linarith
  then have "exp (?e hdl2) \<le> exp (?e hdl1)" by simp
  then have "\<not> DBL_MAX < exp (?e hdl2)" using no1 by linarith
  moreover have "?r hdl2 \<le> ?r hdl1" using le risk_mono[OF c] by simp
  ultimately show ?thesis using eq2 r1' by simp
qed

text \<open>
  Claim C7, as amended. Take an input with a recognised sex and race and positive
  numbers whose exponent \<open>L - MeanTerms\<close> is at most 709, and raise the HDL
  cholesterol while all other fields stay as they are. The exponent changes by
  \<open>(CHDLChol + CAgeHDLChol * ln age) * (ln hdl2 - ln hdl1)\<close>. When the factor
  \<open>CHDLChol + CAgeHDLChol * ln age\<close> of the selected coefficient set is zero or
  negative, which it is at every age for the male and black set, both calls
  return and the second risk does not exceed the first by more than one
  ten-thousandth of a percentage point. Over the real numbers it does not exceed
  it at all (\<open>hdl_order_exact\<close>); the allowance is for the rounding of the
  code's doubles, which the real numbers do not have and which can turn two
  nearly equal risks around. The risk changes by at most 37 times a change of
  the exponent (\<open>risk_slope\<close>), so the allowance holds for any two exponents
  within one millionth of the exact ones (\<open>hdl_order_rounded\<close>). Nothing is
  claimed where the factor is positive.
  The claim as stated, for each of the four sets, fails for the female and black
  set at age 79, where raising HDL from 40 to 60 raises the risk.
\<close>

theorem hdl_monotone:
  assumes "recognised_sex sex" "recognised_race race"
    and "0 < age" "0 < tc" "0 < sbp" "0 < hdl1" "hdl1 < hdl2"
    and "coefficient_set sex race = male_black \<or>
         CHDLChol (coefficient_set sex race) + CAgeHDLChol (coefficient_set sex race) * ln age
           \<le> 0"
    and "pce_exponent (coefficient_set sex race) (ln age) (ln tc) (ln hdl1) (ln sbp)
           on_treatment smoker diabetes \<le> 709"
  shows "ascvd_10y_risk_pce age sex race tc hdl1 sbp on_treatment smoker diabetes =
           Inr (pce_risk (coefficient_set sex race) (ln age) (ln tc) (ln hdl1) (ln sbp)
                  on_treatment smoker diabetes) \<and>
         ascvd_10y_risk_pce age sex race tc hdl2 sbp on_treatment smoker diabetes =
           Inr (pce_risk (coefficient_set sex race) (ln age) (ln tc) (ln hdl2) (ln sbp)
                  on_treatment smoker diabetes) \<and>
         pce_risk (coefficient_set sex race) (ln age) (ln tc) (ln hdl2) (ln sbp)
           on_treatment smoker diabetes
         \<le> pce_risk (coefficient_set sex race) (ln age) (ln tc) (ln hdl1) (ln sbp)
             on_treatment smoker diabetes + 1 / 10000"
proof -
  let ?c = "coefficient_set sex race"
  have sel: "select_coefficients sex race = Inr ?c" using assms(1,2) by (rule select_recognised)
  have k: "CHDLChol ?c + CAgeHDLChol ?c * ln age \<le> 0"
    using assms(8) by (auto simp: male_black_def)
  have hdl2: "0 < hdl2" using assms(6,7) by simp
  have "\<not> DBL_MAX < exp (pce_exponent ?c (ln age) (ln tc) (ln hdl1) (ln sbp)
      on_treatment smoker diabetes)" using assms(9) by (rule no_overflow)
  then have r1: "ascvd_10y_risk_pce age sex race tc hdl1 sbp on_treatment smoker diabetes =
      Inr (pce_risk ?c (ln age) (ln tc) (ln hdl1) (ln sbp) on_treatment smoker diabetes)"
    using engine_valid[OF sel assms(3,4,6,5), of on_treatment smoker diabetes] by simp
  from hdl_order_exact[OF sel assms(6,7) k r1]
  obtain r2 where r2: "ascvd_10y_risk_pce age sex race tc hdl2 sbp on_treatment smoker diabetes
      = Inr r2" and le: "r2 \<le> pce_risk ?c (ln age) (ln tc) (ln hdl1) (ln sbp)
        on_treatment smoker diabetes" by blast
  from engine_Inr[OF r2] sel
  have "r2 = pce_risk ?c (ln age) (ln tc) (ln hdl2) (ln sbp) on_treatment smoker diabetes"
    by auto
  then show ?thesis using r1 r2 le by simp
qed

theorem hdl_monotone_witness:
  "recognised_sex ''male'' \<and> recognised_race ''white'' \<and>
   (0::real) < 55 \<and> (0::real) < 213 \<and> (0::real) < 120 \<and> (0::real) < 50 \<and> (50::real) < 60 \<and>
   CHDLChol male_white + CAgeHDLChol male_white * ln 55 \<le> 0 \<and>
   pce_exponent male_white (ln 55) (ln 213) (ln 50) (ln 120) False False False \<le> 709 \<and>
   ascvd_10y_risk_pce 55 ''male'' ''white'' 213 50 120 False False False =
     Inr (pce_risk male_white (ln 55) (ln 213) (ln 50) (ln 120) False False False) \<and>
   ascvd_10y_risk_pce 55 ''male'' ''white'' 213 60 120 False False False =
     Inr (pce_risk male_white (ln 55) (ln 213) (ln 60) (ln 120) False False False) \<and>
   pce_risk male_white (ln 55) (ln 213) (ln 60) (ln 120) False False False
     \<le> pce_risk male_white (ln 55) (ln 213) (ln 50) (ln 120) False False False + 1 / 10000"
proof -
  have rs: "recognised_sex ''male''" and rr: "recognised_race ''white''"
    by (simp_all add: recognised_sex_def recognised_race_def norm_literals)
  have c: "coefficient_set ''male'' ''white'' = male_white"
    by (simp add: coefficient_set_def norm_literals)
  have k: "CHDLChol male_white + CAgeHDLChol male_white * ln 55 \<le> 0"
    using ln_55_upper by (simp add: male_white_def)
  have b: "pce_exponent male_white (ln 55) (ln 213) (ln 50) (ln 120) False False False \<le> 709"
    using ln_upto_1000[of 55] ln_upto_400[of 213] ln_upto_400[of 50] ln_upto_400[of 120]
    by (intro exponent_bound) simp_all
  have "ascvd_10y_risk_pce 55 ''male'' ''white'' 213 50 120 False False False =
     Inr (pce_risk male_white (ln 55) (ln 213) (ln 50) (ln 120) False False False) \<and>
   ascvd_10y_risk_pce 55 ''male'' ''white'' 213 60 120 False False False =
     Inr (pce_risk male_white (ln 55) (ln 213) (ln 60) (ln 120) False False False) \<and>
   pce_risk male_white (ln 55) (ln 213) (ln 60) (ln 120) False False False
     \<le> pce_risk male_white (ln 55) (ln 213) (ln 50) (ln 120) False False False + 1 / 10000"
    using hdl_monotone[OF rs rr, of 55 213 120 50 60 False False False] k b
    by (simp add: c)
  then show ?thesis using rs rr k b by simp
qed

theorem hdl_monotone_counterexample:
  "ascvd_10y_risk_pce 79 ''female'' ''black'' 213 40 120 False False False =
     Inr (pce_risk female_black (ln 79) (ln 213) (ln 40) (ln 120) False False False) \<and>
   ascvd_10y_risk_pce 79 ''female'' ''black'' 213 60 120 False False False =
     Inr (pce_risk female_black (ln 79) (ln 213) (ln 60) (ln 120) False False False) \<and>
   pce_risk female_black (ln 79) (ln 213) (ln 40) (ln 120) False False False <
   pce_risk female_black (ln 79) (ln 213) (ln 60) (ln 120) False False False"
proof -
  have c: "coefficient_set ''female'' ''black'' = female_black"
    by (simp add: coefficient_set_def norm_literals)
  have fb: "female_black \<in> {female_white, female_black, male_white, male_black}" by simp
  have r40: "ascvd_10y_risk_pce 79 ''female'' ''black'' 213 40 120 False False False =
     Inr (pce_risk female_black (ln 79) (ln 213) (ln 40) (ln 120) False False False)"
    using returns_in_box[of "''female''" "''black''" 79 213 40 120 False False False]
    by (simp add: c recognised_sex_def recognised_race_def norm_literals)
  have r60: "ascvd_10y_risk_pce 79 ''female'' ''black'' 213 60 120 False False False =
     Inr (pce_risk female_black (ln 79) (ln 213) (ln 60) (ln 120) False False False)"
    using returns_in_box[of "''female''" "''black''" 79 213 60 120 False False False]
    by (simp add: c recognised_sex_def recognised_race_def norm_literals)
  have k: "0 < CHDLChol female_black + CAgeHDLChol female_black * ln 79"
    using ln_79_lower by (simp add: female_black_def)
  have "(0::real) < ln 60 - ln 40" by simp
  then have "0 < (CHDLChol female_black + CAgeHDLChol female_black * ln 79) * (ln 60 - ln 40)"
    using k by (intro mult_pos_pos)
  then have "\<not> pce_exponent female_black (ln 79) (ln 213) (ln 60) (ln 120) False False False
      \<le> pce_exponent female_black (ln 79) (ln 213) (ln 40) (ln 120) False False False"
    using exponent_hdl[of female_black "ln 79" "ln 213" "ln 60" "ln 120" False False False "ln 40"]
    by linarith
  then have "\<not> pce_risk female_black (ln 79) (ln 213) (ln 60) (ln 120) False False False
      \<le> pce_risk female_black (ln 79) (ln 213) (ln 40) (ln 120) False False False"
    using risk_mono[OF fb] by simp
  then show ?thesis using r40 r60 by simp
qed

section \<open>Ages outside 40 to 79\<close>

lemma sex_arg_recognised:
  "recognised_sex (if startswith (py_lower sex) ''m'' then ''male'' else ''female'')"
  by (simp add: recognised_sex_def norm_literals)

lemma race_arg_recognised:
  "recognised_race (if startswith (py_lower race) ''black'' then ''black'' else ''white'')"
  by (simp add: recognised_race_def norm_literals)

lemma ln_widgets:
  fixes age tc hdl sbp :: real
  assumes "20 \<le> age" "age \<le> 90" "100 \<le> tc" "tc \<le> 400"
    and "10 \<le> hdl" "hdl \<le> 150" "80 \<le> sbp" "sbp \<le> 250"
  shows "1 \<le> age \<and> age \<le> 1000 \<and> 1 \<le> tc \<and> tc \<le> 400 \<and>
         1 \<le> hdl \<and> hdl \<le> 400 \<and> 1 \<le> sbp \<and> sbp \<le> 400"
  using assms by simp

lemma ln_half_pow_1000:
  "ln ((1 / 2 :: real) ^ 1000) \<le> - 500" "- 1000 \<le> ln ((1 / 2 :: real) ^ 1000)"
proof -
  have h: "ln (1 / 2 :: real) = - ln 2" by (simp add: ln_div)
  have e: "ln ((1 / 2 :: real) ^ 1000) = - (1000 * ln 2)"
    using ln_realpow[of "1 / 2" 1000] h by simp
  show "ln ((1 / 2 :: real) ^ 1000) \<le> - 500" unfolding e using ln_2_lower by simp
  show "- 1000 \<le> ln ((1 / 2 :: real) ^ 1000)" unfolding e using ln_2_less_1 by simp
qed

text \<open>
  Claim C9, as amended. For every submission with positive age, total
  cholesterol, HDL cholesterol and systolic blood pressure and with the age below
  40 or above 79, the form handler issues the age warning and still calls
  \<^verbatim>\<open>ascvd_10y_risk_pce\<close>. The only failure the call can then have is the
  \<^verbatim>\<open>OverflowError\<close> of \<^verbatim>\<open>math.exp\<close>, and for values within the ranges of
  the form's widgets (age 20 to 90, total cholesterol 100 to 400, HDL 10 to 150,
  blood pressure 80 to 250) the handler shows a risk between 0 and 100 with its
  category. The warning comes from the handler (lines 215 and 216), not from
  \<^verbatim>\<open>ascvd_10y_risk_pce\<close>, whose result is the number alone. The claim as
  stated, for every positive age, fails at the age \<open>(1 / 2) ^ 1000\<close>.
\<close>

theorem age_outside_validated_range:
  assumes "0 < age" "age < 40 \<or> 79 < age" "0 < tc" "0 < hdl" "0 < sbp"
  shows
    "age_warning (on_submit age sex race tc hdl sbp on_treatment smoker diabetes) \<and>
     (\<forall>e. shown (on_submit age sex race tc hdl sbp on_treatment smoker diabetes) = Inl e
        \<longrightarrow> e = OverflowError ''math range error'') \<and>
     (20 \<le> age \<and> age \<le> 90 \<and> 100 \<le> tc \<and> tc \<le> 400 \<and>
      10 \<le> hdl \<and> hdl \<le> 150 \<and> 80 \<le> sbp \<and> sbp \<le> 250 \<longrightarrow>
        (\<exists>risk. shown (on_submit age sex race tc hdl sbp on_treatment smoker diabetes)
                  = Inr (risk, categorise risk) \<and> 0 \<le> risk \<and> risk \<le> 100))"
proof -
  let ?sex = "if startswith (py_lower sex) ''m'' then ''male'' else ''female''"
  let ?race = "if startswith (py_lower race) ''black'' then ''black'' else ''white''"
  let ?call = "ascvd_10y_risk_pce age ?sex ?race tc hdl sbp on_treatment smoker diabetes"
  let ?c = "coefficient_set ?sex ?race"
  have rs: "recognised_sex ?sex" by (rule sex_arg_recognised)
  have rr: "recognised_race ?race" by (rule race_arg_recognised)
  have sel: "select_coefficients ?sex ?race = Inr ?c" using rs rr by (rule select_recognised)
  have c: "?c \<in> {female_white, female_black, male_white, male_black}"
    using select_Inr[OF sel] by auto
  have shown: "shown (on_submit age sex race tc hdl sbp on_treatment smoker diabetes) =
     (case ?call of Inl e \<Rightarrow> Inl e | Inr risk \<Rightarrow> Inr (clip risk, categorise (clip risk)))"
    by (simp add: on_submit_def Let_def split: sum.splits)
  have w: "age_warning (on_submit age sex race tc hdl sbp on_treatment smoker diabetes)"
    using assms(2) by (auto simp: on_submit_def Let_def)
  have call: "?call =
     (if DBL_MAX < exp (pce_exponent ?c (ln age) (ln tc) (ln hdl) (ln sbp)
                          on_treatment smoker diabetes)
      then Inl (OverflowError ''math range error'')
      else Inr (pce_risk ?c (ln age) (ln tc) (ln hdl) (ln sbp) on_treatment smoker diabetes))"
    using engine_valid[OF sel assms(1,3,4,5)] .
  have err: "e = OverflowError ''math range error''"
    if "shown (on_submit age sex race tc hdl sbp on_treatment smoker diabetes) = Inl e" for e
    using that unfolding shown call by (simp split: if_splits)
  have ok: "\<exists>risk. shown (on_submit age sex race tc hdl sbp on_treatment smoker diabetes)
                  = Inr (risk, categorise risk) \<and> 0 \<le> risk \<and> risk \<le> 100"
    if box: "20 \<le> age \<and> age \<le> 90 \<and> 100 \<le> tc \<and> tc \<le> 400 \<and>
      10 \<le> hdl \<and> hdl \<le> 150 \<and> 80 \<le> sbp \<and> sbp \<le> 250"
  proof -
    have "?call = Inr (pce_risk ?c (ln age) (ln tc) (ln hdl) (ln sbp)
        on_treatment smoker diabetes)"
      using box by (intro returns_in_box rs rr) simp_all
    moreover have "0 \<le> clip x \<and> clip x \<le> 100" for x by (simp add: clip_def)
    ultimately show ?thesis unfolding shown by simp
  qed
  show ?thesis using w err ok by blast
qed

theorem age_outside_validated_range_witness:
  "(0::real) < 85 \<and> ((85::real) < 40 \<or> (79::real) < 85) \<and>
   (0::real) < 213 \<and> (0::real) < 50 \<and> (0::real) < 120 \<and>
   age_warning (on_submit 85 ''Female'' ''Black'' 213 50 120 False True False) \<and>
   (\<exists>risk. shown (on_submit 85 ''Female'' ''Black'' 213 50 120 False True False)
            = Inr (risk, categorise risk) \<and> 0 \<le> risk \<and> risk \<le> 100)"
  using age_outside_validated_range[of 85 213 50 120 "''Female''" "''Black''" False True False]
  by simp

theorem age_outside_validated_range_counterexample:
  "ascvd_10y_risk_pce ((1 / 2) ^ 1000) ''female'' ''white'' 213 50 120 False False False =
     Inl (OverflowError ''math range error'') \<and>
   on_submit ((1 / 2) ^ 1000) ''Female'' ''White / Other'' 213 50 120 False False False =
     \<lparr> age_warning = True, shown = Inl (OverflowError ''math range error'') \<rparr>"
proof -
  have sel: "select_coefficients ''female'' ''white'' = Inr female_white"
    by (simp add: select_coefficients_def norm_literals Let_def)
  have gen: "710 \<le> pce_exponent female_white a t h s False False False"
    if a: "a \<le> - 500" "- 1000 \<le> a" and t: "0 \<le> t" "t \<le> 6" and h: "0 \<le> h" "h \<le> 6"
      and s: "0 \<le> s"
    for a t h s
  proof -
    have aa: "250000 \<le> a * a" using a mult_mono[of 500 "- a" 500 "- a"] by simp
    have at: "a * t \<le> 0" using a t by (simp add: mult_le_0_iff)
    have ah: "- 6000 \<le> a * h" using a h mult_mono[of "- a" 1000 h 6] by simp
    show ?thesis
      unfolding pce_exponent_def linear_predictor_def female_white_def
      by (simp add: power2_eq_square mult.assoc; insert a t h s aa at ah; linarith)
  qed
  have "710 \<le> pce_exponent female_white (ln ((1 / 2) ^ 1000)) (ln 213) (ln 50) (ln 120)
     False False False"
    using ln_upto_400[of 213] ln_upto_400[of 50] ln_upto_400[of 120]
    by (intro gen ln_half_pow_1000) simp_all
  then have "DBL_MAX < exp (pce_exponent female_white (ln ((1 / 2) ^ 1000)) (ln 213) (ln 50)
     (ln 120) False False False)" by (rule overflow)
  then have e: "ascvd_10y_risk_pce ((1 / 2) ^ 1000) ''female'' ''white'' 213 50 120
      False False False = Inl (OverflowError ''math range error'')"
    using engine_valid[OF sel, of "(1 / 2) ^ 1000" 213 50 120 False False False] by simp
  have l: "startswith (py_lower ''Female'') ''m'' = False"
    "startswith (py_lower ''White / Other'') ''black'' = False"
    by code_simp+
  have "(1 / 2 :: real) ^ 1000 < 40"
  proof -
    have "(1 / 2 :: real) ^ 1000 \<le> 1" by (rule power_le_one) simp_all
    then show ?thesis by linarith
  qed
  then show ?thesis using e
    by (simp add: on_submit_def Let_def l)
qed

end
